theory Spec2Isabelle
  imports Main "HOL-Library.AList" "HOL-Library.Char_ord" "HOL-Library.List_Lexorder"
begin

section \<open>Configuration and enumerations (rtmp.go, lines 19-79)\<close>

text \<open>
  The embedding follows \<^verbatim>\<open>src/rtmp.go\<close>. Go strings are \<open>string\<close>, a Go \<open>error\<close> is
  its message (\<open>string option\<close>, \<open>None\<close> for \<open>nil\<close>), the three string-typed enumerations
  are datatypes with the function that gives the string of each constant. Time is counted in
  whole minutes. An entry of \<open>logger\<close> is one line of the log, without the prefix of the
  logger and without the newline that ends it.
\<close>

definition kubeAPIURL :: string where
  "kubeAPIURL = ''http://localhost:8080''"

definition lifetimeTimeoutHours :: nat where
  "lifetimeTimeoutHours = 6"

definition usageTimeoutMinutes :: nat where
  "usageTimeoutMinutes = 15"

datatype KubeEndpointType = UpdateStatus | Notify | Complete

fun KubeEndpoint :: "KubeEndpointType \<Rightarrow> string" where
  "KubeEndpoint UpdateStatus = ''/update-status''"
| "KubeEndpoint Notify = ''/notify''"
| "KubeEndpoint Complete = ''/complete''"

datatype ShutdownReasonType = Usage | Lifetime

fun ShutdownReason :: "ShutdownReasonType \<Rightarrow> string" where
  "ShutdownReason Usage = ''usage''"
| "ShutdownReason Lifetime = ''lifetime''"

datatype instanceStatusType =
  Inactive | Starting | Running | ShutdownRequested | ShuttingDown | ShutdownFailed

fun InstanceStatus :: "instanceStatusType \<Rightarrow> string" where
  "InstanceStatus Inactive = ''Inactive''"
| "InstanceStatus Starting = ''Starting''"
| "InstanceStatus Running = ''Running''"
| "InstanceStatus ShutdownRequested = ''ShutdownRequested''"
| "InstanceStatus ShuttingDown = ''ShuttingDown''"
| "InstanceStatus ShutdownFailed = ''ShutdownFailed''"

section \<open>Library values used by the program\<close>

text \<open>\<open>url.Values\<close>: a map from a key to the list of its values; \<open>Add\<close> appends.\<close>

type_synonym Values = "(string \<times> string list) list"

definition Values_Add :: "string \<Rightarrow> string \<Rightarrow> Values \<Rightarrow> Values" where
  "Values_Add k v vs =
     AList.update k ((case map_of vs k of None \<Rightarrow> [] | Some old \<Rightarrow> old) @ [v]) vs"

text \<open>
  \<open>url.QueryEscape\<close>: letters, digits and \<open>- _ . ~\<close> stay, a space becomes \<open>+\<close>, every
  other byte becomes \<open>%\<close> and its two upper-case hexadecimal digits.
\<close>

definition unreserved :: "char \<Rightarrow> bool" where
  "unreserved c =
     ((97 \<le> (of_char c :: nat) \<and> (of_char c :: nat) \<le> 122)
      \<or> (65 \<le> (of_char c :: nat) \<and> (of_char c :: nat) \<le> 90)
      \<or> (48 \<le> (of_char c :: nat) \<and> (of_char c :: nat) \<le> 57)
      \<or> c = CHR ''-'' \<or> c = CHR ''_'' \<or> c = CHR ''.'' \<or> c = CHR ''~'')"

definition upperhex :: "nat \<Rightarrow> char" where
  "upperhex d = ''0123456789ABCDEF'' ! (d mod 16)"

definition escape_byte :: "char \<Rightarrow> string" where
  "escape_byte c =
     (if unreserved c then [c]
      else if c = CHR '' '' then ''+''
      else [CHR ''%'', upperhex ((of_char c :: nat) div 16), upperhex (of_char c :: nat)])"

definition QueryEscape :: "string \<Rightarrow> string" where
  "QueryEscape s = concat (map escape_byte s)"

text \<open>
  \<open>Values.Encode\<close>: the keys in sorted order, for each key its values in their order as
  \<open>key=value\<close>, joined by \<open>&\<close>.
\<close>

fun join_amp :: "string list \<Rightarrow> string" where
  "join_amp [] = []"
| "join_amp [x] = x"
| "join_amp (x # y # ys) = x @ ''&'' @ join_amp (y # ys)"

definition key_values :: "string \<times> string list \<Rightarrow> string list" where
  "key_values kv = map (\<lambda>v. QueryEscape (fst kv) @ ''='' @ QueryEscape v) (snd kv)"

definition Values_Encode :: "Values \<Rightarrow> string" where
  "Values_Encode vs = join_amp (concat (map key_values (sort_key fst vs)))"

text \<open>\<open>fmt.Sprintf("%d", n)\<close> for a length or a constant, which are never negative.\<close>

definition digit_char :: "nat \<Rightarrow> char" where
  "digit_char d = char_of (48 + d)"

fun Sprintf_d :: "nat \<Rightarrow> string" where
  "Sprintf_d n = (if n < 10 then [digit_char n] else Sprintf_d (n div 10) @ [digit_char (n mod 10)])"

declare Sprintf_d.simps [simp del]

text \<open>\<open>net.Conn\<close>: the program reads only the remote address of a connection.\<close>

record Conn =
  RemoteAddr :: string

text \<open>
  The outcome of the three library calls of \<open>SendRequest\<close>, given by the environment:
  the error of \<open>url.Parse\<close>, the error of \<open>http.NewRequest\<close>, and from \<open>client.Do\<close>
  either an error or the response, of which the program reads \<open>StatusCode\<close> and \<open>Status\<close>
  (the code and its text, as in \<open>503 Service Unavailable\<close>).
\<close>

record Response =
  StatusCode :: nat
  Status :: string

record http_env =
  url_Parse :: "string option"
  http_NewRequest :: "string option"
  client_Do :: "string + Response"

text \<open>
  A call that reached the control plane: the endpoint, the query parameters (the
  \<open>url.Values\<close> that \<open>SendRequest\<close> encodes into the URL), the JSON body of
  \<open>/notify\<close>, and which of the two mutexes were held when the call was made.
\<close>

record kube_call =
  endpoint :: KubeEndpointType
  query :: Values
  body :: "(string \<times> string) list"
  with_statusMux :: bool
  with_connectionsMux :: bool

text \<open>
  What a handler does to its \<open>http.ResponseWriter\<close>, call by call. The value given to
  the JSON encoder is \<open>nil\<close>, a string, a byte slice, or the \<open>nil\<close> byte slice.
\<close>

datatype json_body = Body_nil | Body_string string | Body_bytes string | Body_nil_bytes

datatype rw_op =
  Header_Set string string
| WriteHeader nat
| Encode json_body
| http_Error string nat

text \<open>
  The status that \<open>net/http\<close> sends for these calls: the one of the first \<open>WriteHeader\<close>
  (\<open>http.Error\<close> calls it); a later \<open>WriteHeader\<close> is superfluous and changes nothing; a
  write to the body before any \<open>WriteHeader\<close> sends 200.
\<close>

fun response_status :: "rw_op list \<Rightarrow> nat option" where
  "response_status [] = None"
| "response_status (Header_Set k v # ops) = response_status ops"
| "response_status (WriteHeader code # ops) = Some code"
| "response_status (Encode b # ops) = Some 200"
| "response_status (http_Error msg code # ops) = Some code"

record streamDetails =
  UUID :: string
  URL :: string

section \<open>Tasks and channels\<close>

text \<open>
  A Go channel with its capacity and its buffer. A send proceeds when the buffer has room
  or a receiver waits; a receive proceeds when the buffer holds a value or a sender waits.
  \<open>make(chan T)\<close> has capacity \<open>0\<close>.
\<close>

record 'a chan =
  chan_cap :: nat
  chan_buf :: "'a list"

definition make_chan :: "'a chan" where
  "make_chan = \<lparr>chan_cap = 0, chan_buf = []\<rparr>"

text \<open>\<open>startLifetimeTimer\<close>: asleep with so many minutes left, at its send, or returned.\<close>

datatype lifetime_task = L_Sleeping nat | L_Sending | L_Done

text \<open>
  \<open>startUsageTimer\<close>: in its \<open>select\<close>, at its send, or returned; its \<open>time.Timer\<close>
  with the minutes left and whether a value sits in \<open>timer.C\<close>.
\<close>

datatype usage_pc = U_Select | U_Sending | U_Done

record usage_task =
  usage_at :: usage_pc
  timer_left :: nat
  timer_C :: bool

text \<open>
  One request to \<open>/stream\<close> that was registered: back from the critical section of
  \<open>handleNewStream\<close> (\<open>Registered\<close>), counted in the wait group with its goroutine
  started (\<open>Handling\<close>), through the locked removal (\<open>Completed\<close>), after \<open>wg.Done\<close>
  (\<open>Finished\<close>).
\<close>

datatype phase = Registered | Handling | Completed | Finished

record handler =
  details :: streamDetails
  conn :: Conn
  writer :: "rw_op list"
  at :: phase

text \<open>Where \<open>startServer\<close> stands.\<close>

datatype coord_pc =
  C_Start
| C_Await
| C_Received ShutdownReasonType
| C_Requested
| C_Drained
| C_Confirmed
| C_Exited

section \<open>The state of the instance\<close>

record istate =
  status :: instanceStatusType
  statusMux :: bool
  connections :: "(string \<times> Conn) list"
  connectionsMux :: bool
  logger :: "string list"
  requests :: "kube_call list"
  responses :: "rw_op list list"
  wg :: nat
  handlers :: "handler list"
  coord :: coord_pc
  lifetimeTimer :: lifetime_task
  usageTimer :: usage_task
  shutdownServer :: "ShutdownReasonType chan"
  connectionChan :: "unit chan"

text \<open>
  The state when \<open>startServer\<close> has made its channels and started both timers
  (lines 82-91 and 239-247).
\<close>

definition init :: istate where
  "init = \<lparr>status = Inactive, statusMux = False, connections = [], connectionsMux = False,
     logger = [], requests = [], responses = [], wg = 0, handlers = [], coord = C_Start,
     lifetimeTimer = L_Sleeping (lifetimeTimeoutHours * 60),
     usageTimer = \<lparr>usage_at = U_Select, timer_left = usageTimeoutMinutes, timer_C = False\<rparr>,
     shutdownServer = make_chan, connectionChan = make_chan\<rparr>"

definition Printf :: "string \<Rightarrow> istate \<Rightarrow> istate" where
  "Printf line g = g\<lparr>logger := logger g @ [line]\<rparr>"

section \<open>Control-plane calls (lines 99-210)\<close>

text \<open>
  \<open>u.String()\<close> at line 127: the URL parsed from \<open>kubeAPIURL + string(req)\<close> with the
  \<open>RawQuery\<close> of line 107, which \<open>String\<close> puts after a \<open>?\<close> when it is not empty.
\<close>

definition URL_String :: "KubeEndpointType \<Rightarrow> Values \<Rightarrow> string" where
  "URL_String req params =
     kubeAPIURL @ KubeEndpoint req @
     (if Values_Encode params = [] then [] else ''?'' @ Values_Encode params)"

definition SendRequest ::
  "KubeEndpointType \<Rightarrow> Values \<Rightarrow> http_env \<Rightarrow> istate \<Rightarrow> string option \<times> istate" where
  "SendRequest req params env g =
     (case url_Parse env of
        Some err \<Rightarrow> (Some err, Printf (''Error parsing URL: '' @ err) g)
      | None \<Rightarrow>
        (case http_NewRequest env of
           Some err \<Rightarrow> (Some err, Printf (''Error creating request: '' @ err) g)
         | None \<Rightarrow>
           let g1 = g\<lparr>requests := requests g @
                      [\<lparr>endpoint = req, query = params, body = [],
                        with_statusMux = statusMux g,
                        with_connectionsMux = connectionsMux g\<rparr>]\<rparr>
           in (case client_Do env of
                 Inl err \<Rightarrow> (Some err, Printf (''Error sending request: '' @ err) g1)
               | Inr resp \<Rightarrow>
                   (None,
                    if StatusCode resp \<noteq> 200
                    then Printf (''Request to '' @ URL_String req params @
                                 '' returned status '' @ Status resp) g1
                    else g1))))"

text \<open>\<open>notifyKubernetes\<close> drops the results of \<open>json.Marshal\<close> and \<open>http.Post\<close>.\<close>

definition notifyKubernetes :: "string \<Rightarrow> string \<Rightarrow> istate \<Rightarrow> istate" where
  "notifyKubernetes reason message g =
     g\<lparr>requests := requests g @
        [\<lparr>endpoint = Notify, query = [],
          body = [(''reason'', reason), (''message'', message)],
          with_statusMux = statusMux g, with_connectionsMux = connectionsMux g\<rparr>]\<rparr>"

text \<open>
  \<open>Lock\<close> on a held mutex does not return: the functions that lock give \<open>None\<close> then.
  Every \<open>Unlock\<close> of the program follows the \<open>Lock\<close> of the same function.
\<close>

definition updateStatusAndSendRequest ::
  "instanceStatusType \<Rightarrow> Values option \<Rightarrow> http_env \<Rightarrow> istate \<Rightarrow>
     (string option \<times> istate) option" where
  "updateStatusAndSendRequest newStatus params env g =
     (if statusMux g then None
      else
        let g1 = g\<lparr>statusMux := True\<rparr>;
            g2 = g1\<lparr>status := newStatus\<rparr>;
            params1 = (case params of None \<Rightarrow> [] | Some p \<Rightarrow> p);
            params2 = Values_Add ''status'' (InstanceStatus newStatus) params1;
            (err, g3) = SendRequest UpdateStatus params2 env g2;
            g4 = (case err of
                    None \<Rightarrow> g3
                  | Some e \<Rightarrow> Printf (''Error updating status and sending request: '' @ e) g3)
        in Some (err, g4\<lparr>statusMux := False\<rparr>))"

definition requestShutdown ::
  "ShutdownReasonType \<Rightarrow> http_env \<Rightarrow> istate \<Rightarrow> (string option \<times> istate) option" where
  "requestShutdown reason env g =
     updateStatusAndSendRequest ShutdownRequested
       (Some (Values_Add ''reason'' (ShutdownReason reason) [])) env g"

definition connectionComplete :: "string \<Rightarrow> http_env \<Rightarrow> istate \<Rightarrow> string option \<times> istate" where
  "connectionComplete uuid env g = SendRequest Complete (Values_Add ''uuid'' uuid []) env g"

definition confirmShutdown :: "http_env \<Rightarrow> istate \<Rightarrow> (string option \<times> istate) option" where
  "confirmShutdown env g =
     updateStatusAndSendRequest ShuttingDown None env
       (Printf ''Shutting down and notifying Kubernetes.'' g)"

definition confirmStartup :: "http_env \<Rightarrow> istate \<Rightarrow> (string option \<times> istate) option" where
  "confirmStartup env g =
     updateStatusAndSendRequest Running None env
       (Printf ''Confirming startup and notifying Kubernetes.'' g)"

section \<open>The HTTP handlers (lines 212-234 and 297-345)\<close>

definition sendResponse :: "rw_op list \<Rightarrow> nat \<Rightarrow> json_body \<Rightarrow> rw_op list" where
  "sendResponse w code b =
     w @ [Header_Set ''Content-Type'' ''application/json'', WriteHeader code, Encode b]"

text \<open>
  \<open>getStatus\<close>: \<open>json_Marshal\<close> is the library call, an error or the bytes; on a map of
  strings \<open>json.Marshal\<close> has no error to return, so no run of the program takes the
  error branch of line 229. The handler takes \<open>statusMux\<close> only, also for the read of
  \<open>len(connections)\<close>.
\<close>

definition status_payload :: "istate \<Rightarrow> (string \<times> string) list" where
  "status_payload g =
     [(''status'', InstanceStatus (status g)),
      (''streams'', Sprintf_d (length (connections g)))]"

definition getStatus ::
  "((string \<times> string) list \<Rightarrow> string + string) \<Rightarrow> rw_op list \<Rightarrow> istate \<Rightarrow>
     (rw_op list \<times> istate) option" where
  "getStatus json_Marshal w g =
     (if statusMux g then None
      else
        let payload = status_payload g
        in (case json_Marshal payload of
              Inl err \<Rightarrow>
                let g1 = Printf (''Error marshalling status into JSON: '' @ err) g;
                    w1 = sendResponse w 500
                           (Body_string
                              (''Error marshalling status into JSON: '' @ err @ [CHR 0x0A]));
                    w2 = sendResponse w1 200 Body_nil_bytes
                in Some (w2, g1)
            | Inr jsonPayload \<Rightarrow> Some (sendResponse w 200 (Body_bytes jsonPayload), g)))"

text \<open>
  \<open>handleNewStream\<close>, lines 300-327: the critical section under \<open>connectionsMux\<close>.
  \<open>decoded\<close> is the result of \<open>Decode\<close> on the body (\<open>None\<close> for an error), \<open>dial\<close>
  is \<open>net.Dial("tcp", _)\<close> (\<open>None\<close> for an error). The result is the writer, the
  registered request if there is one, and the state.
\<close>

definition handleNewStream_register ::
  "streamDetails option \<Rightarrow> (string \<Rightarrow> Conn option) \<Rightarrow> rw_op list \<Rightarrow> istate \<Rightarrow>
     (rw_op list \<times> handler option \<times> istate) option" where
  "handleNewStream_register decoded dial w g =
     (if connectionsMux g then None
      else
        let g1 = g\<lparr>connectionsMux := True\<rparr>
        in (case decoded of
              None \<Rightarrow>
                Some (w @ [http_Error ''Invalid request body'' 400], None,
                      g1\<lparr>connectionsMux := False\<rparr>)
            | Some sd \<Rightarrow>
                (case dial (URL sd) of
                   None \<Rightarrow>
                     Some (w @ [http_Error ''Unable to connect to stream'' 500], None,
                           g1\<lparr>connectionsMux := False\<rparr>)
                 | Some c \<Rightarrow>
                     let g2 = g1\<lparr>connections := AList.update (UUID sd) c (connections g1)\<rparr>
                     in Some (w, Some \<lparr>details = sd, conn = c, writer = w, at = Registered\<rparr>,
                              g2\<lparr>connectionsMux := False\<rparr>))))"

text \<open>Lines 329-334: the response, \<open>wg.Add(1)\<close> and the start of the goroutine.\<close>

definition handleNewStream_spawn :: "nat \<Rightarrow> istate \<Rightarrow> istate option" where
  "handleNewStream_spawn i g =
     (if i < length (handlers g) \<and> at (handlers g ! i) = Registered
      then
        let h = handlers g ! i
        in Some (g\<lparr>responses := responses g @ [sendResponse (writer h) 200 Body_nil],
                   wg := wg g + 1,
                   handlers := (handlers g)[i := h\<lparr>at := Handling\<rparr>]\<rparr>)
      else None)"

text \<open>
  Lines 336-343, once \<open>HandleStream\<close> has returned: the locked removal and the call of
  \<open>connectionComplete\<close>. The key of the \<open>delete\<close> is \<open>conn.RemoteAddr().String()\<close>.
\<close>

definition stream_complete :: "handler \<Rightarrow> http_env \<Rightarrow> istate \<Rightarrow> istate option" where
  "stream_complete h env g =
     (if connectionsMux g then None
      else
        let g1 = g\<lparr>connectionsMux := True\<rparr>;
            g2 = g1\<lparr>connections := AList.delete (RemoteAddr (conn h)) (connections g1)\<rparr>;
            (err, g3) = connectionComplete (UUID (details h)) env g2;
            g4 = (case err of
                    None \<Rightarrow> g3
                  | Some e \<Rightarrow> Printf (''Error calling connectionComplete: '' @ e) g3)
        in Some (g4\<lparr>connectionsMux := False\<rparr>))"

definition goroutine_complete :: "nat \<Rightarrow> http_env \<Rightarrow> istate \<Rightarrow> istate option" where
  "goroutine_complete i env g =
     (if i < length (handlers g) \<and> at (handlers g ! i) = Handling
      then (case stream_complete (handlers g ! i) env g of
              None \<Rightarrow> None
            | Some g1 \<Rightarrow>
                Some (g1\<lparr>handlers := (handlers g1)[i := (handlers g1 ! i)\<lparr>at := Completed\<rparr>]\<rparr>))
      else None)"

text \<open>The deferred \<open>wg.Done()\<close>; a counter below zero is a panic.\<close>

definition goroutine_done :: "nat \<Rightarrow> istate \<Rightarrow> istate option" where
  "goroutine_done i g =
     (if i < length (handlers g) \<and> at (handlers g ! i) = Completed \<and> 0 < wg g
      then Some (g\<lparr>wg := wg g - 1,
                   handlers := (handlers g)[i := (handlers g ! i)\<lparr>at := Finished\<rparr>]\<rparr>)
      else None)"

section \<open>The timers (lines 144-167)\<close>

definition elapse_lifetime :: "nat \<Rightarrow> istate \<Rightarrow> istate" where
  "elapse_lifetime n g =
     (case lifetimeTimer g of
        L_Sleeping left \<Rightarrow>
          if n < left then g\<lparr>lifetimeTimer := L_Sleeping (left - n)\<rparr>
          else Printf (''Instance has been alive for '' @ Sprintf_d lifetimeTimeoutHours @
                       '' hours.'') (g\<lparr>lifetimeTimer := L_Sending\<rparr>)
      | L_Sending \<Rightarrow> g
      | L_Done \<Rightarrow> g)"

definition elapse_usage :: "nat \<Rightarrow> usage_task \<Rightarrow> usage_task" where
  "elapse_usage n u =
     (if usage_at u \<noteq> U_Select \<or> timer_C u then u
      else if n < timer_left u then u\<lparr>timer_left := timer_left u - n\<rparr>
      else u\<lparr>timer_left := 0, timer_C := True\<rparr>)"

text \<open>
  The \<open>connectionChan\<close> case of the \<open>select\<close>: stop the timer, drain \<open>timer.C\<close> if it
  had fired, reset. No function of the program sends on \<open>connectionChan\<close>
  (\<open>handleNewStream\<close> is given \<open>&wg\<close> only, line 251), so no sender ever waits and the
  receive can proceed from the buffer only.
\<close>

definition usage_reset :: "istate \<Rightarrow> istate option" where
  "usage_reset g =
     (if usage_at (usageTimer g) = U_Select \<and> chan_buf (connectionChan g) \<noteq> []
      then Some (g\<lparr>connectionChan :=
                      (connectionChan g)\<lparr>chan_buf := tl (chan_buf (connectionChan g))\<rparr>,
                    usageTimer :=
                      (usageTimer g)\<lparr>timer_left := usageTimeoutMinutes, timer_C := False\<rparr>\<rparr>)
      else None)"

text \<open>The \<open>timer.C\<close> case of the \<open>select\<close>: the task goes to its send.\<close>

definition usage_timeout :: "istate \<Rightarrow> istate option" where
  "usage_timeout g =
     (if usage_at (usageTimer g) = U_Select \<and> timer_C (usageTimer g)
      then Some (g\<lparr>usageTimer := (usageTimer g)\<lparr>usage_at := U_Sending, timer_C := False\<rparr>\<rparr>)
      else None)"

definition at_send :: "ShutdownReasonType \<Rightarrow> istate \<Rightarrow> bool" where
  "at_send r g =
     (case r of
        Lifetime \<Rightarrow> lifetimeTimer g = L_Sending
      | Usage \<Rightarrow> usage_at (usageTimer g) = U_Sending)"

definition after_send :: "ShutdownReasonType \<Rightarrow> istate \<Rightarrow> istate" where
  "after_send r g =
     (case r of
        Lifetime \<Rightarrow> g\<lparr>lifetimeTimer := L_Done\<rparr>
      | Usage \<Rightarrow>
          Printf (''Instance has gone '' @ Sprintf_d usageTimeoutMinutes @
                  '' minutes without receiving a new connection.'')
            (g\<lparr>usageTimer := (usageTimer g)\<lparr>usage_at := U_Done\<rparr>\<rparr>))"

text \<open>
  \<open>shutdownChan <- reason\<close>: into the buffer when it has room, to \<open>startServer\<close> when it
  waits at line 271, and blocked otherwise.
\<close>

definition timer_send :: "ShutdownReasonType \<Rightarrow> istate \<Rightarrow> istate option" where
  "timer_send r g =
     (if \<not> at_send r g then None
      else if length (chan_buf (shutdownServer g)) < chan_cap (shutdownServer g)
      then Some (after_send r
                   (g\<lparr>shutdownServer :=
                        (shutdownServer g)\<lparr>chan_buf := chan_buf (shutdownServer g) @ [r]\<rparr>\<rparr>))
      else if coord g = C_Await then Some (after_send r (g\<lparr>coord := C_Received r\<rparr>))
      else None)"

section \<open>\<open>startServer\<close> (lines 237-295)\<close>

definition serverPort :: string where
  "serverPort = ''localhost:1935''"

definition startServer_startup :: "http_env \<Rightarrow> istate \<Rightarrow> istate option" where
  "startServer_startup env g =
     (if coord g \<noteq> C_Start then None
      else (case confirmStartup env (Printf (''Server started on '' @ serverPort) g) of
              None \<Rightarrow> None
            | Some (err, g1) \<Rightarrow> Some (g1\<lparr>coord := C_Await\<rparr>)))"

text \<open>Line 271, when a value is in the buffer of the channel.\<close>

definition startServer_receive :: "istate \<Rightarrow> istate option" where
  "startServer_receive g =
     (if coord g \<noteq> C_Await then None
      else (case chan_buf (shutdownServer g) of
              [] \<Rightarrow> None
            | r # rest \<Rightarrow>
                Some (g\<lparr>coord := C_Received r,
                        shutdownServer := (shutdownServer g)\<lparr>chan_buf := rest\<rparr>\<rparr>)))"

text \<open>Lines 272-280.\<close>

definition startServer_request :: "http_env \<Rightarrow> istate \<Rightarrow> istate option" where
  "startServer_request env g =
     (case coord g of
        C_Received shutdownReason \<Rightarrow>
          (case requestShutdown shutdownReason env (Printf ''Requesting shutdown.'' g) of
             None \<Rightarrow> None
           | Some (err, g1) \<Rightarrow>
               if connectionsMux g1 then None
               else
                 Some ((if 0 < length (connections g1)
                        then Printf (''Waiting on '' @ Sprintf_d (length (connections g1)) @
                                     '' streams to complete.'') g1
                        else g1)\<lparr>coord := C_Requested\<rparr>))
      | _ \<Rightarrow> None)"

text \<open>Line 283: \<open>wg.Wait()\<close> returns when the counter is zero.\<close>

definition startServer_wait :: "istate \<Rightarrow> istate option" where
  "startServer_wait g =
     (if coord g = C_Requested \<and> wg g = 0 then Some (g\<lparr>coord := C_Drained\<rparr>) else None)"

text \<open>Lines 284-285.\<close>

definition startServer_confirm :: "http_env \<Rightarrow> istate \<Rightarrow> istate option" where
  "startServer_confirm env g =
     (if coord g \<noteq> C_Drained then None
      else (case confirmShutdown env g of
              None \<Rightarrow> None
            | Some (err, g1) \<Rightarrow> Some ((Printf ''Shutting down.'' g1)\<lparr>coord := C_Confirmed\<rparr>)))"

text \<open>
  Lines 287-294: \<open>shutdown_err\<close> is what \<open>server.Shutdown(ctx)\<close> returns under its
  context of five seconds.
\<close>

definition startServer_shutdown :: "string option \<Rightarrow> istate \<Rightarrow> istate option" where
  "startServer_shutdown shutdown_err g =
     (if coord g \<noteq> C_Confirmed then None
      else
        let g1 = (case shutdown_err of
                    None \<Rightarrow> g
                  | Some err \<Rightarrow>
                      notifyKubernetes ''Server Shutdown Failed'' err
                        (Printf (''Server shutdown failed: '' @ err) g))
        in Some ((Printf ''Server exited'' g1)\<lparr>coord := C_Exited\<rparr>))"

section \<open>The tasks together\<close>

text \<open>
  One event is one atomic action of one task: a critical section, a channel operation, a
  wait-group operation, or the passing of time. \<open>step\<close> gives \<open>None\<close> when the task cannot
  act (it is elsewhere, or blocked). Nothing acts once \<open>startServer\<close> has returned.
\<close>

datatype event =
  Startup http_env
| Elapse nat
| NewStream "streamDetails option" "string \<Rightarrow> Conn option"
| Respond nat
| StreamDone nat http_env
| WgDone nat
| UsageReset
| UsageTimeout
| Send ShutdownReasonType
| Receive
| RequestShutdown http_env
| Drain
| ConfirmShutdown http_env
| ServerShutdown "string option"

definition new_stream ::
  "streamDetails option \<Rightarrow> (string \<Rightarrow> Conn option) \<Rightarrow> istate \<Rightarrow> istate option" where
  "new_stream decoded dial g =
     (case handleNewStream_register decoded dial [] g of
        None \<Rightarrow> None
      | Some (w, None, g1) \<Rightarrow> Some (g1\<lparr>responses := responses g1 @ [w]\<rparr>)
      | Some (w, Some h, g1) \<Rightarrow> Some (g1\<lparr>handlers := handlers g1 @ [h]\<rparr>))"

fun act :: "event \<Rightarrow> istate \<Rightarrow> istate option" where
  "act (Startup env) g = startServer_startup env g"
| "act (Elapse n) g = Some ((elapse_lifetime n g)\<lparr>usageTimer := elapse_usage n (usageTimer g)\<rparr>)"
| "act (NewStream decoded dial) g = new_stream decoded dial g"
| "act (Respond i) g = handleNewStream_spawn i g"
| "act (StreamDone i env) g = goroutine_complete i env g"
| "act (WgDone i) g = goroutine_done i g"
| "act UsageReset g = usage_reset g"
| "act UsageTimeout g = usage_timeout g"
| "act (Send r) g = timer_send r g"
| "act Receive g = startServer_receive g"
| "act (RequestShutdown env) g = startServer_request env g"
| "act Drain g = startServer_wait g"
| "act (ConfirmShutdown env) g = startServer_confirm env g"
| "act (ServerShutdown shutdown_err) g = startServer_shutdown shutdown_err g"

definition step :: "event \<Rightarrow> istate \<Rightarrow> istate option" where
  "step e g = (if coord g = C_Exited then None else act e g)"

fun run :: "event list \<Rightarrow> istate \<Rightarrow> istate option" where
  "run [] g = Some g"
| "run (e # es) g = (case step e g of None \<Rightarrow> None | Some g1 \<Rightarrow> run es g1)"

text \<open>Environments for concrete runs: a control plane that answers, targets that accept.\<close>

definition responds :: "nat \<Rightarrow> string \<Rightarrow> http_env" where
  "responds code text =
     \<lparr>url_Parse = None, http_NewRequest = None,
      client_Do = Inr \<lparr>StatusCode = code, Status = text\<rparr>\<rparr>"

definition answers_ok :: http_env where
  "answers_ok = responds 200 ''200 OK''"

definition answers_unavailable :: http_env where
  "answers_unavailable = responds 503 ''503 Service Unavailable''"

definition unreachable_plane :: http_env where
  "unreachable_plane =
     \<lparr>url_Parse = None, http_NewRequest = None, client_Do = Inl ''connection refused''\<rparr>"

definition accepts :: "string \<Rightarrow> Conn option" where
  "accepts address = Some \<lparr>RemoteAddr = address\<rparr>"

definition stream :: "string \<Rightarrow> string \<Rightarrow> streamDetails option" where
  "stream uuid address = Some \<lparr>UUID = uuid, URL = address\<rparr>"

text \<open>
  \<open>json.Marshal\<close> on a map of strings whose keys and values hold only characters that
  JSON writes as they are (as the statuses and the decimal numbers do): the object with
  its keys in sorted order, and never an error.
\<close>

definition json_quote :: "string \<Rightarrow> string" where
  "json_quote s = [CHR 0x22] @ s @ [CHR 0x22]"

fun json_members :: "(string \<times> string) list \<Rightarrow> string" where
  "json_members [] = []"
| "json_members [kv] = json_quote (fst kv) @ '':'' @ json_quote (snd kv)"
| "json_members (kv # kw # rest) =
     json_quote (fst kv) @ '':'' @ json_quote (snd kv) @ '','' @ json_members (kw # rest)"

definition json_Marshal_plain :: "(string \<times> string) list \<Rightarrow> string + string" where
  "json_Marshal_plain payload = Inr (''{'' @ json_members (sort_key fst payload) @ ''}'')"

section \<open>Properties of the states that a run reaches\<close>

text \<open>Between two events no mutex is held.\<close>

definition unlocked :: "istate \<Rightarrow> bool" where
  "unlocked g = (\<not> statusMux g \<and> \<not> connectionsMux g)"

text \<open>The two channels have no buffer and hold nothing.\<close>

definition channels_empty :: "istate \<Rightarrow> bool" where
  "channels_empty g =
     (chan_cap (shutdownServer g) = 0 \<and> chan_buf (shutdownServer g) = []
      \<and> chan_buf (connectionChan g) = [])"

text \<open>The status is the one that \<open>startServer\<close> set last.\<close>

definition status_follows_coord :: "istate \<Rightarrow> bool" where
  "status_follows_coord g =
     (chan_cap (shutdownServer g) = 0 \<and>
      status g =
        (case coord g of
           C_Start \<Rightarrow> Inactive
         | C_Await \<Rightarrow> Running
         | C_Received r \<Rightarrow> Running
         | C_Requested \<Rightarrow> ShutdownRequested
         | C_Drained \<Rightarrow> ShutdownRequested
         | C_Confirmed \<Rightarrow> ShuttingDown
         | C_Exited \<Rightarrow> ShuttingDown))"

text \<open>
  The events in which \<open>startServer\<close> gets a reason from the channel, and whether it has
  got one.
\<close>

fun is_delivery :: "event \<Rightarrow> bool" where
  "is_delivery (Send r) = True"
| "is_delivery Receive = True"
| "is_delivery e = False"

definition delivered :: "istate \<Rightarrow> nat" where
  "delivered g = (if coord g = C_Start \<or> coord g = C_Await then 0 else 1)"

text \<open>
  The minutes that pass in a run, and the usage timer against them: while the timer runs,
  what is left of it and what has passed add up to \<open>usageTimeoutMinutes\<close>.
\<close>

fun minutes :: "event \<Rightarrow> nat" where
  "minutes (Elapse n) = n"
| "minutes e = 0"

definition elapsed :: "event list \<Rightarrow> nat" where
  "elapsed es = sum_list (map minutes es)"

definition usage_clock :: "nat \<Rightarrow> istate \<Rightarrow> bool" where
  "usage_clock t g =
     (chan_buf (connectionChan g) = [] \<and>
      (if usage_at (usageTimer g) = U_Select \<and> \<not> timer_C (usageTimer g)
       then 0 < timer_left (usageTimer g) \<and> timer_left (usageTimer g) + t = usageTimeoutMinutes
       else usageTimeoutMinutes \<le> t))"

section \<open>Concrete runs\<close>

text \<open>
  The usage timer fires after fifteen minutes and \<open>requestShutdown\<close> sets the status.
\<close>

definition shutdown_requested_run :: "event list" where
  "shutdown_requested_run =
     [Startup answers_ok, Elapse 15, UsageTimeout, Send Usage, RequestShutdown answers_ok]"

text \<open>Two requests with the id \<open>a\<close> and different targets.\<close>

definition duplicate_run :: "event list" where
  "duplicate_run =
     [NewStream (stream ''a'' ''10.0.0.1:1935'') accepts,
      NewStream (stream ''a'' ''10.0.0.2:1935'') accepts, Respond 0, Respond 1]"

text \<open>One session from its request to \<open>wg.Done()\<close>.\<close>

definition completed_run :: "event list" where
  "completed_run =
     [Startup answers_ok, NewStream (stream ''a'' ''10.0.0.1:1935'') accepts, Respond 0,
      StreamDone 0 answers_ok, WgDone 0]"

text \<open>A shutdown in which \<open>server.Shutdown\<close> runs into its deadline.\<close>

definition failed_shutdown_run :: "event list" where
  "failed_shutdown_run =
     [Startup answers_ok, Elapse 15, UsageTimeout, Send Usage, RequestShutdown answers_ok,
      Drain, ConfirmShutdown answers_ok, ServerShutdown (Some ''context deadline exceeded'')]"

text \<open>
  A stream keeps the instance alive after the usage timer has delivered its reason, until
  the lifetime timer wakes up.
\<close>

definition lifetime_blocked_run :: "event list" where
  "lifetime_blocked_run =
     [Startup answers_ok, NewStream (stream ''a'' ''10.0.0.1:1935'') accepts, Respond 0,
      Elapse 15, UsageTimeout, Send Usage, RequestShutdown answers_ok, Elapse 345]"

text \<open>A session admitted ten minutes after the start, and five more minutes.\<close>

definition admission_at_ten_run :: "event list" where
  "admission_at_ten_run =
     [Startup answers_ok, Elapse 10, NewStream (stream ''a'' ''10.0.0.1:1935'') accepts,
      Respond 0, Elapse 5]"

text \<open>
  A request arrives as the usage timer delivers its reason and is registered;
  \<open>startServer\<close> requests the shutdown before the handler of the request comes to
  \<open>wg.Add(1)\<close>.
\<close>

definition early_drain_run :: "event list" where
  "early_drain_run =
     [Startup answers_ok, Elapse 15, UsageTimeout, Send Usage,
      NewStream (stream ''a'' ''10.0.0.1:1935'') accepts, RequestShutdown answers_ok]"

section \<open>What the control-plane calls leave alone\<close>

lemma SendRequest_keeps:
  "status (snd (SendRequest req ps env g)) = status g"
  "statusMux (snd (SendRequest req ps env g)) = statusMux g"
  "connections (snd (SendRequest req ps env g)) = connections g"
  "connectionsMux (snd (SendRequest req ps env g)) = connectionsMux g"
  "responses (snd (SendRequest req ps env g)) = responses g"
  "wg (snd (SendRequest req ps env g)) = wg g"
  "handlers (snd (SendRequest req ps env g)) = handlers g"
  "coord (snd (SendRequest req ps env g)) = coord g"
  "lifetimeTimer (snd (SendRequest req ps env g)) = lifetimeTimer g"
  "usageTimer (snd (SendRequest req ps env g)) = usageTimer g"
  "shutdownServer (snd (SendRequest req ps env g)) = shutdownServer g"
  "connectionChan (snd (SendRequest req ps env g)) = connectionChan g"
  by (simp_all add: SendRequest_def Printf_def Let_def split: option.splits sum.splits)

lemma updateStatusAndSendRequest_keeps:
  assumes "updateStatusAndSendRequest newStatus params env g = Some (err, g')"
  shows "status g' = newStatus" "\<not> statusMux g" "\<not> statusMux g'"
    "connections g' = connections g" "connectionsMux g' = connectionsMux g"
    "responses g' = responses g" "wg g' = wg g" "handlers g' = handlers g"
    "coord g' = coord g" "lifetimeTimer g' = lifetimeTimer g" "usageTimer g' = usageTimer g"
    "shutdownServer g' = shutdownServer g" "connectionChan g' = connectionChan g"
proof -
  let ?ps = "Values_Add ''status'' (InstanceStatus newStatus)
               (case params of None \<Rightarrow> [] | Some p \<Rightarrow> p)"
  let ?g2 = "g\<lparr>statusMux := True, status := newStatus\<rparr>"
  show free: "\<not> statusMux g"
    using assms by (simp add: updateStatusAndSendRequest_def split: if_splits)
  obtain e g3 where sr: "SendRequest UpdateStatus ?ps env ?g2 = (e, g3)"
    by (cases "SendRequest UpdateStatus ?ps env ?g2")
  have g3: "g3 = snd (SendRequest UpdateStatus ?ps env ?g2)"
    using sr by simp
  have g': "g' = (case e of None \<Rightarrow> g3
                  | Some m \<Rightarrow> Printf (''Error updating status and sending request: '' @ m) g3)
                 \<lparr>statusMux := False\<rparr>"
    using assms free sr by (auto simp add: updateStatusAndSendRequest_def Let_def)
  show "status g' = newStatus" "\<not> statusMux g'"
    "connections g' = connections g" "connectionsMux g' = connectionsMux g"
    "responses g' = responses g" "wg g' = wg g" "handlers g' = handlers g"
    "coord g' = coord g" "lifetimeTimer g' = lifetimeTimer g" "usageTimer g' = usageTimer g"
    "shutdownServer g' = shutdownServer g" "connectionChan g' = connectionChan g"
    unfolding g' g3 by (simp_all add: Printf_def SendRequest_keeps split: option.splits)
qed

lemma startServer_startup_effect:
  assumes "startServer_startup env g = Some g'"
  shows "coord g = C_Start" "coord g' = C_Await" "status g' = Running"
    "\<not> statusMux g'" "connections g' = connections g" "connectionsMux g' = connectionsMux g"
    "responses g' = responses g" "wg g' = wg g" "handlers g' = handlers g"
    "lifetimeTimer g' = lifetimeTimer g" "usageTimer g' = usageTimer g"
    "shutdownServer g' = shutdownServer g" "connectionChan g' = connectionChan g"
proof -
  let ?g0 = "Printf ''Confirming startup and notifying Kubernetes.''
               (Printf (''Server started on '' @ serverPort) g)"
  show c: "coord g = C_Start"
    using assms by (simp add: startServer_startup_def split: if_splits)
  obtain err g1 where u: "updateStatusAndSendRequest Running None env ?g0 = Some (err, g1)"
    and g': "g' = g1\<lparr>coord := C_Await\<rparr>"
    using assms c by (auto simp add: startServer_startup_def confirmStartup_def split: option.splits)
  show "coord g' = C_Await" "status g' = Running"
    "\<not> statusMux g'" "connections g' = connections g" "connectionsMux g' = connectionsMux g"
    "responses g' = responses g" "wg g' = wg g" "handlers g' = handlers g"
    "lifetimeTimer g' = lifetimeTimer g" "usageTimer g' = usageTimer g"
    "shutdownServer g' = shutdownServer g" "connectionChan g' = connectionChan g"
    unfolding g' using updateStatusAndSendRequest_keeps [OF u] by (simp_all add: Printf_def)
qed

lemma startServer_request_effect:
  assumes "startServer_request env g = Some g'"
  shows "\<exists>r. coord g = C_Received r" "coord g' = C_Requested" "status g' = ShutdownRequested"
    "\<not> statusMux g'" "connections g' = connections g" "\<not> connectionsMux g'"
    "responses g' = responses g" "wg g' = wg g" "handlers g' = handlers g"
    "lifetimeTimer g' = lifetimeTimer g" "usageTimer g' = usageTimer g"
    "shutdownServer g' = shutdownServer g" "connectionChan g' = connectionChan g"
proof -
  obtain r where c: "coord g = C_Received r"
    using assms by (cases "coord g") (simp_all add: startServer_request_def)
  then show "\<exists>r. coord g = C_Received r" by blast
  let ?g0 = "Printf ''Requesting shutdown.'' g"
  obtain err g1 where u: "updateStatusAndSendRequest ShutdownRequested
                            (Some (Values_Add ''reason'' (ShutdownReason r) [])) env ?g0 = Some (err, g1)"
    and free: "\<not> connectionsMux g1"
    and g': "g' = (if 0 < length (connections g1)
                   then Printf (''Waiting on '' @ Sprintf_d (length (connections g1)) @
                                '' streams to complete.'') g1
                   else g1)\<lparr>coord := C_Requested\<rparr>"
    using assms c
    by (auto simp add: startServer_request_def requestShutdown_def split: option.splits if_splits)
  show "coord g' = C_Requested" "status g' = ShutdownRequested"
    "\<not> statusMux g'" "connections g' = connections g" "\<not> connectionsMux g'"
    "responses g' = responses g" "wg g' = wg g" "handlers g' = handlers g"
    "lifetimeTimer g' = lifetimeTimer g" "usageTimer g' = usageTimer g"
    "shutdownServer g' = shutdownServer g" "connectionChan g' = connectionChan g"
    unfolding g' using updateStatusAndSendRequest_keeps [OF u] free by (simp_all add: Printf_def)
qed

lemma startServer_confirm_effect:
  assumes "startServer_confirm env g = Some g'"
  shows "coord g = C_Drained" "coord g' = C_Confirmed" "status g' = ShuttingDown"
    "\<not> statusMux g'" "connections g' = connections g" "connectionsMux g' = connectionsMux g"
    "responses g' = responses g" "wg g' = wg g" "handlers g' = handlers g"
    "lifetimeTimer g' = lifetimeTimer g" "usageTimer g' = usageTimer g"
    "shutdownServer g' = shutdownServer g" "connectionChan g' = connectionChan g"
proof -
  let ?g0 = "Printf ''Shutting down and notifying Kubernetes.'' g"
  show c: "coord g = C_Drained"
    using assms by (simp add: startServer_confirm_def split: if_splits)
  obtain err g1 where u: "updateStatusAndSendRequest ShuttingDown None env ?g0 = Some (err, g1)"
    and g': "g' = (Printf ''Shutting down.'' g1)\<lparr>coord := C_Confirmed\<rparr>"
    using assms c by (auto simp add: startServer_confirm_def confirmShutdown_def split: option.splits)
  show "coord g' = C_Confirmed" "status g' = ShuttingDown"
    "\<not> statusMux g'" "connections g' = connections g" "connectionsMux g' = connectionsMux g"
    "responses g' = responses g" "wg g' = wg g" "handlers g' = handlers g"
    "lifetimeTimer g' = lifetimeTimer g" "usageTimer g' = usageTimer g"
    "shutdownServer g' = shutdownServer g" "connectionChan g' = connectionChan g"
    unfolding g' using updateStatusAndSendRequest_keeps [OF u] by (simp_all add: Printf_def)
qed

lemma stream_complete_effect:
  assumes "stream_complete h env g = Some g'"
  shows "status g' = status g" "statusMux g' = statusMux g"
    "connections g' = AList.delete (RemoteAddr (conn h)) (connections g)"
    "\<not> connectionsMux g" "\<not> connectionsMux g'"
    "responses g' = responses g" "wg g' = wg g" "handlers g' = handlers g"
    "coord g' = coord g" "lifetimeTimer g' = lifetimeTimer g" "usageTimer g' = usageTimer g"
    "shutdownServer g' = shutdownServer g" "connectionChan g' = connectionChan g"
proof -
  let ?g2 = "g\<lparr>connectionsMux := True,
               connections := AList.delete (RemoteAddr (conn h)) (connections g)\<rparr>"
  let ?ps = "Values_Add ''uuid'' (UUID (details h)) []"
  show free: "\<not> connectionsMux g"
    using assms by (simp add: stream_complete_def split: if_splits)
  obtain e g3 where sr: "SendRequest Complete ?ps env ?g2 = (e, g3)"
    by (cases "SendRequest Complete ?ps env ?g2")
  have g3: "g3 = snd (SendRequest Complete ?ps env ?g2)"
    using sr by simp
  have g': "g' = (case e of None \<Rightarrow> g3
                  | Some m \<Rightarrow> Printf (''Error calling connectionComplete: '' @ m) g3)
                 \<lparr>connectionsMux := False\<rparr>"
    using assms free sr by (auto simp add: stream_complete_def connectionComplete_def Let_def)
  show "status g' = status g" "statusMux g' = statusMux g"
    "connections g' = AList.delete (RemoteAddr (conn h)) (connections g)"
    "\<not> connectionsMux g'"
    "responses g' = responses g" "wg g' = wg g" "handlers g' = handlers g"
    "coord g' = coord g" "lifetimeTimer g' = lifetimeTimer g" "usageTimer g' = usageTimer g"
    "shutdownServer g' = shutdownServer g" "connectionChan g' = connectionChan g"
    unfolding g' g3 by (simp_all add: Printf_def SendRequest_keeps split: option.splits)
qed

section \<open>Invariants of a run\<close>

lemma run_invariant:
  assumes "\<And>e g g'. P g \<Longrightarrow> step e g = Some g' \<Longrightarrow> P g'"
    and "P g" and "run es g = Some g'"
  shows "P g'"
  using assms(2,3)
proof (induction es arbitrary: g)
  case Nil
  then show ?case by simp
next
  case (Cons e es)
  then obtain g1 where s: "step e g = Some g1" and r: "run es g1 = Some g'"
    by (auto split: option.splits)
  from assms(1) [OF Cons.prems(1) s] have "P g1" .
  from Cons.IH [OF this r] show ?case .
qed

lemmas task_steps =
  new_stream_def handleNewStream_register_def handleNewStream_spawn_def goroutine_done_def
  elapse_lifetime_def elapse_usage_def usage_reset_def usage_timeout_def timer_send_def
  after_send_def startServer_receive_def startServer_wait_def startServer_shutdown_def
  notifyKubernetes_def Printf_def Let_def

lemma goroutine_complete_effect:
  assumes "goroutine_complete i env g = Some g'"
  shows "i < length (handlers g)" "at (handlers g ! i) = Handling"
    "handlers g' = (handlers g)[i := (handlers g ! i)\<lparr>at := Completed\<rparr>]"
    "status g' = status g" "statusMux g' = statusMux g"
    "connections g' = AList.delete (RemoteAddr (conn (handlers g ! i))) (connections g)"
    "\<not> connectionsMux g" "\<not> connectionsMux g'"
    "responses g' = responses g" "wg g' = wg g"
    "coord g' = coord g" "lifetimeTimer g' = lifetimeTimer g" "usageTimer g' = usageTimer g"
    "shutdownServer g' = shutdownServer g" "connectionChan g' = connectionChan g"
proof -
  show i: "i < length (handlers g)" "at (handlers g ! i) = Handling"
    using assms by (simp_all add: goroutine_complete_def split: if_splits)
  obtain g1 where c: "stream_complete (handlers g ! i) env g = Some g1"
    and g': "g' = g1\<lparr>handlers := (handlers g1)[i := (handlers g1 ! i)\<lparr>at := Completed\<rparr>]\<rparr>"
    using assms i by (auto simp add: goroutine_complete_def split: option.splits)
  show "handlers g' = (handlers g)[i := (handlers g ! i)\<lparr>at := Completed\<rparr>]"
    "status g' = status g" "statusMux g' = statusMux g"
    "connections g' = AList.delete (RemoteAddr (conn (handlers g ! i))) (connections g)"
    "\<not> connectionsMux g" "\<not> connectionsMux g'"
    "responses g' = responses g" "wg g' = wg g"
    "coord g' = coord g" "lifetimeTimer g' = lifetimeTimer g" "usageTimer g' = usageTimer g"
    "shutdownServer g' = shutdownServer g" "connectionChan g' = connectionChan g"
    unfolding g' using stream_complete_effect [OF c] by simp_all
qed

lemma step_unlocked:
  assumes "unlocked g" and "step e g = Some g'"
  shows "unlocked g'"
proof (cases e)
  case (Startup env)
  then show ?thesis
    using assms startServer_startup_effect [of env g g']
    by (simp add: step_def unlocked_def split: if_splits)
next
  case (StreamDone i env)
  then show ?thesis
    using assms goroutine_complete_effect [of i env g g']
    by (simp add: step_def unlocked_def split: if_splits)
next
  case (RequestShutdown env)
  then show ?thesis
    using assms startServer_request_effect [of env g g']
    by (simp add: step_def unlocked_def split: if_splits)
next
  case (ConfirmShutdown env)
  then show ?thesis
    using assms startServer_confirm_effect [of env g g']
    by (simp add: step_def unlocked_def split: if_splits)
qed (use assms in \<open>auto simp add: step_def unlocked_def task_steps
      split: if_splits option.splits lifetime_task.splits list.splits ShutdownReasonType.splits\<close>)

lemma unlocked_init: "unlocked init"
  by (simp add: unlocked_def init_def)

lemma run_unlocked:
  assumes "run es init = Some s"
  shows "unlocked s"
  using run_invariant [where P = unlocked, OF step_unlocked unlocked_init assms] .



lemma new_stream_effect:
  assumes "new_stream decoded dial g = Some g'"
  shows "status g' = status g" "statusMux g' = statusMux g"
    "\<not> connectionsMux g" "\<not> connectionsMux g'" "wg g' = wg g"
    "coord g' = coord g" "lifetimeTimer g' = lifetimeTimer g" "usageTimer g' = usageTimer g"
    "shutdownServer g' = shutdownServer g" "connectionChan g' = connectionChan g"
    "requests g' = requests g"
    "handlers g' = handlers g \<or> (\<exists>h. handlers g' = handlers g @ [h] \<and> at h = Registered)"
proof -
  show free: "\<not> connectionsMux g"
    using assms by (simp add: new_stream_def handleNewStream_register_def split: if_splits)
  show "status g' = status g" "statusMux g' = statusMux g"
    "\<not> connectionsMux g'" "wg g' = wg g"
    "coord g' = coord g" "lifetimeTimer g' = lifetimeTimer g" "usageTimer g' = usageTimer g"
    "shutdownServer g' = shutdownServer g" "connectionChan g' = connectionChan g"
    "requests g' = requests g"
    "handlers g' = handlers g \<or> (\<exists>h. handlers g' = handlers g @ [h] \<and> at h = Registered)"
    using assms free
    by (auto simp add: new_stream_def handleNewStream_register_def Let_def split: option.splits)
qed

lemma elapse_lifetime_keeps:
  "status (elapse_lifetime n g) = status g" "statusMux (elapse_lifetime n g) = statusMux g"
  "connections (elapse_lifetime n g) = connections g"
  "connectionsMux (elapse_lifetime n g) = connectionsMux g"
  "responses (elapse_lifetime n g) = responses g" "wg (elapse_lifetime n g) = wg g"
  "handlers (elapse_lifetime n g) = handlers g" "coord (elapse_lifetime n g) = coord g"
  "requests (elapse_lifetime n g) = requests g" "usageTimer (elapse_lifetime n g) = usageTimer g"
  "shutdownServer (elapse_lifetime n g) = shutdownServer g"
  "connectionChan (elapse_lifetime n g) = connectionChan g"
  by (simp_all add: elapse_lifetime_def Printf_def split: lifetime_task.splits)

lemma timer_send_effect:
  assumes "timer_send r g = Some g'"
  shows "status g' = status g" "statusMux g' = statusMux g"
    "connections g' = connections g" "connectionsMux g' = connectionsMux g"
    "responses g' = responses g" "wg g' = wg g" "handlers g' = handlers g"
    "requests g' = requests g" "connectionChan g' = connectionChan g"
    "chan_cap (shutdownServer g') = chan_cap (shutdownServer g)"
    "at_send r g"
    "length (chan_buf (shutdownServer g)) < chan_cap (shutdownServer g)
     \<or> (coord g = C_Await \<and> coord g' = C_Received r \<and> shutdownServer g' = shutdownServer g)"
  using assms
  by (cases r; simp add: timer_send_def after_send_def Printf_def split: if_splits; fastforce)+


lemma step_channels_empty:
  assumes "channels_empty g" and "step e g = Some g'"
  shows "channels_empty g'"
proof (cases e)
  case (Startup env)
  then show ?thesis
    using assms startServer_startup_effect [of env g g']
    by (simp add: step_def channels_empty_def split: if_splits)
next
  case (Elapse n)
  then show ?thesis
    using assms
    by (auto simp add: step_def channels_empty_def elapse_lifetime_keeps split: if_splits)
next
  case (NewStream decoded dial)
  then show ?thesis
    using assms new_stream_effect [of decoded dial g g']
    by (simp add: step_def channels_empty_def split: if_splits)
next
  case (Respond i)
  then show ?thesis
    using assms
    by (auto simp add: step_def channels_empty_def handleNewStream_spawn_def Let_def split: if_splits)
next
  case (StreamDone i env)
  then show ?thesis
    using assms goroutine_complete_effect [of i env g g']
    by (simp add: step_def channels_empty_def split: if_splits)
next
  case (WgDone i)
  then show ?thesis
    using assms
    by (auto simp add: step_def channels_empty_def goroutine_done_def split: if_splits)
next
  case UsageReset
  then show ?thesis
    using assms
    by (auto simp add: step_def channels_empty_def usage_reset_def split: if_splits)
next
  case UsageTimeout
  then show ?thesis
    using assms
    by (auto simp add: step_def channels_empty_def usage_timeout_def split: if_splits)
next
  case (Send r)
  then show ?thesis
    using assms timer_send_effect [of r g g']
    by (auto simp add: step_def channels_empty_def split: if_splits)
next
  case Receive
  then show ?thesis
    using assms
    by (auto simp add: step_def channels_empty_def startServer_receive_def split: if_splits list.splits)
next
  case (RequestShutdown env)
  then show ?thesis
    using assms startServer_request_effect [of env g g']
    by (auto simp add: step_def channels_empty_def split: if_splits)
next
  case Drain
  then show ?thesis
    using assms
    by (auto simp add: step_def channels_empty_def startServer_wait_def split: if_splits)
next
  case (ConfirmShutdown env)
  then show ?thesis
    using assms startServer_confirm_effect [of env g g']
    by (simp add: step_def channels_empty_def split: if_splits)
next
  case (ServerShutdown shutdown_err)
  then show ?thesis
    using assms
    by (auto simp add: step_def channels_empty_def startServer_shutdown_def notifyKubernetes_def Printf_def
        split: if_splits option.splits)
qed

lemma run_channels_empty:
  assumes "run es init = Some s"
  shows "channels_empty s"
proof -
  have "channels_empty init"
    by (simp add: channels_empty_def init_def make_chan_def)
  from run_invariant [where P = channels_empty, OF step_channels_empty this assms]
  show ?thesis .
qed

lemma step_status_follows_coord:
  assumes "status_follows_coord g" and "step e g = Some g'"
  shows "status_follows_coord g'"
proof (cases e)
  case (Startup env)
  then show ?thesis
    using assms startServer_startup_effect [of env g g']
    by (simp add: step_def status_follows_coord_def split: if_splits)
next
  case (Elapse n)
  then show ?thesis
    using assms
    by (auto simp add: step_def status_follows_coord_def elapse_lifetime_keeps split: if_splits)
next
  case (NewStream decoded dial)
  then show ?thesis
    using assms new_stream_effect [of decoded dial g g']
    by (simp add: step_def status_follows_coord_def split: if_splits)
next
  case (Respond i)
  then show ?thesis
    using assms
    by (auto simp add: step_def status_follows_coord_def handleNewStream_spawn_def Let_def split: if_splits)
next
  case (StreamDone i env)
  then show ?thesis
    using assms goroutine_complete_effect [of i env g g']
    by (simp add: step_def status_follows_coord_def split: if_splits)
next
  case (WgDone i)
  then show ?thesis
    using assms
    by (auto simp add: step_def status_follows_coord_def goroutine_done_def split: if_splits)
next
  case UsageReset
  then show ?thesis
    using assms
    by (auto simp add: step_def status_follows_coord_def usage_reset_def split: if_splits)
next
  case UsageTimeout
  then show ?thesis
    using assms
    by (auto simp add: step_def status_follows_coord_def usage_timeout_def split: if_splits)
next
  case (Send r)
  then show ?thesis
    using assms timer_send_effect [of r g g']
    by (auto simp add: step_def status_follows_coord_def split: if_splits)
next
  case Receive
  then show ?thesis
    using assms
    by (auto simp add: step_def status_follows_coord_def startServer_receive_def split: if_splits list.splits)
next
  case (RequestShutdown env)
  then show ?thesis
    using assms startServer_request_effect [of env g g']
    by (auto simp add: step_def status_follows_coord_def split: if_splits)
next
  case Drain
  then show ?thesis
    using assms
    by (auto simp add: step_def status_follows_coord_def startServer_wait_def split: if_splits)
next
  case (ConfirmShutdown env)
  then show ?thesis
    using assms startServer_confirm_effect [of env g g']
    by (simp add: step_def status_follows_coord_def split: if_splits)
next
  case (ServerShutdown shutdown_err)
  then show ?thesis
    using assms
    by (auto simp add: step_def status_follows_coord_def startServer_shutdown_def notifyKubernetes_def Printf_def
        split: if_splits option.splits)
qed

lemma run_status_follows_coord:
  assumes "run es init = Some s"
  shows "status_follows_coord s"
proof -
  have "status_follows_coord init"
    by (simp add: status_follows_coord_def init_def make_chan_def)
  from run_invariant [where P = status_follows_coord, OF step_status_follows_coord this assms]
  show ?thesis .
qed


section \<open>\<open>SendRequest\<close>: the result of a control-plane call\<close>

text \<open>
  C9: \<open>SendRequest\<close> returns \<open>nil\<close> exactly when the round trip completed, whatever
  the status code of the response: a response other than 200 adds one line to the log, with
  the URL of the request and the status of the response, and changes neither the status
  nor the connections; only the three failures of the transport (\<open>url.Parse\<close>,
  \<open>http.NewRequest\<close>, \<open>client.Do\<close>) give an error.
\<close>

theorem SendRequest_nil_for_any_response:
  "(fst (SendRequest req params env g) = None) =
     (url_Parse env = None \<and> http_NewRequest env = None \<and> (\<exists>resp. client_Do env = Inr resp))
   \<and> (url_Parse env = None \<and> http_NewRequest env = None \<and> client_Do env = Inr resp \<longrightarrow>
        fst (SendRequest req params env g) = None
        \<and> status (snd (SendRequest req params env g)) = status g
        \<and> connections (snd (SendRequest req params env g)) = connections g
        \<and> logger (snd (SendRequest req params env g)) =
            logger g @ (if StatusCode resp = 200 then []
                        else [''Request to '' @ URL_String req params @
                              '' returned status '' @ Status resp]))"
  by (auto simp add: SendRequest_def Printf_def Let_def split: option.splits sum.splits)

theorem SendRequest_nil_for_any_response_witness:
  "fst (SendRequest Complete (Values_Add ''uuid'' ''a'' []) answers_unavailable init) = None
   \<and> logger (snd (SendRequest Complete (Values_Add ''uuid'' ''a'' []) answers_unavailable init)) =
       [''Request to http://localhost:8080/complete?uuid=a returned status 503 Service Unavailable'']
   \<and> fst (SendRequest Complete (Values_Add ''uuid'' ''a'' []) unreachable_plane init) \<noteq> None"
proof -
  let ?ps = "Values_Add ''uuid'' ''a'' []"
  let ?resp = "\<lparr>StatusCode = 503, Status = ''503 Service Unavailable''\<rparr>"
  have env: "url_Parse answers_unavailable = None \<and> http_NewRequest answers_unavailable = None
             \<and> client_Do answers_unavailable = Inr ?resp"
    by (simp add: answers_unavailable_def responds_def)
  have url: "URL_String Complete ?ps = ''http://localhost:8080/complete?uuid=a''"
    by code_simp
  have "fst (SendRequest Complete ?ps answers_unavailable init) = None
        \<and> logger (snd (SendRequest Complete ?ps answers_unavailable init)) =
            logger init @ [''Request to '' @ URL_String Complete ?ps @
                           '' returned status '' @ Status ?resp]"
    using SendRequest_nil_for_any_response [of Complete ?ps answers_unavailable init ?resp] env
    by simp
  moreover have "fst (SendRequest Complete ?ps unreachable_plane init) \<noteq> None"
    using SendRequest_nil_for_any_response [of Complete ?ps unreachable_plane init ?resp]
    by (simp add: unreachable_plane_def)
  ultimately show ?thesis
    unfolding url by (simp add: init_def)
qed

section \<open>\<open>updateStatusAndSendRequest\<close>\<close>

text \<open>
  C8: \<open>updateStatusAndSendRequest\<close> takes \<open>statusMux\<close>: while the mutex is held by
  another task it does not return. With the mutex free it returns the error of the
  control-plane call (\<open>nil\<close> when a response came), and leaves the status at the new
  value, the mutex free and the connections as they were, whether the call failed or not.
  The call is made once, while the mutex is held and after the assignment: when the
  request could be built, the requests of the state grow by exactly one call of
  \<open>/update-status\<close>, made under \<open>statusMux\<close>, whose query is the given parameters with
  \<open>status\<close> set to the new status.
\<close>

theorem updateStatusAndSendRequest_sets_and_notifies_locked:
  "(statusMux g \<longrightarrow> updateStatusAndSendRequest newStatus params env g = None)
   \<and> (\<not> statusMux g \<longrightarrow>
        (\<exists>g'. updateStatusAndSendRequest newStatus params env g =
                 Some (case url_Parse env of
                         Some e \<Rightarrow> Some e
                       | None \<Rightarrow>
                           (case http_NewRequest env of
                              Some e \<Rightarrow> Some e
                            | None \<Rightarrow>
                                (case client_Do env of Inl e \<Rightarrow> Some e | Inr resp \<Rightarrow> None)),
                       g')
           \<and> status g' = newStatus
           \<and> \<not> statusMux g'
           \<and> connections g' = connections g
           \<and> connectionsMux g' = connectionsMux g
           \<and> requests g' =
               requests g @
               (if url_Parse env = None \<and> http_NewRequest env = None
                then [\<lparr>endpoint = UpdateStatus,
                       query = Values_Add ''status'' (InstanceStatus newStatus)
                                 (case params of None \<Rightarrow> [] | Some p \<Rightarrow> p),
                       body = [], with_statusMux = True,
                       with_connectionsMux = connectionsMux g\<rparr>]
                else [])))"
  by (auto simp add: updateStatusAndSendRequest_def SendRequest_def Printf_def Let_def
      split: option.splits sum.splits)

theorem updateStatusAndSendRequest_sets_and_notifies_locked_witness:
  "updateStatusAndSendRequest Running None unreachable_plane (init\<lparr>statusMux := True\<rparr>) = None
   \<and> (\<exists>g'. updateStatusAndSendRequest Running None unreachable_plane init =
              Some (Some ''connection refused'', g')
            \<and> status g' = Running
            \<and> \<not> statusMux g'
            \<and> requests g' =
                [\<lparr>endpoint = UpdateStatus, query = [(''status'', [''Running''])], body = [],
                  with_statusMux = True, with_connectionsMux = False\<rparr>])"
proof -
  have held: "statusMux (init\<lparr>statusMux := True\<rparr>)"
    by simp
  have free: "\<not> statusMux init"
    by (simp add: init_def)
  have q: "Values_Add ''status'' (InstanceStatus Running) (case None of None \<Rightarrow> [] | Some p \<Rightarrow> p) =
             [(''status'', [''Running''])]"
    by (simp add: Values_Add_def)
  have a: "updateStatusAndSendRequest Running None unreachable_plane (init\<lparr>statusMux := True\<rparr>) = None"
    using updateStatusAndSendRequest_sets_and_notifies_locked
            [of "init\<lparr>statusMux := True\<rparr>" Running None unreachable_plane] held
    by blast
  have "\<exists>g'. updateStatusAndSendRequest Running None unreachable_plane init =
               Some (Some ''connection refused'', g')
             \<and> status g' = Running
             \<and> \<not> statusMux g'
             \<and> requests g' =
                 requests init @
                 [\<lparr>endpoint = UpdateStatus, query = [(''status'', [''Running''])], body = [],
                   with_statusMux = True, with_connectionsMux = connectionsMux init\<rparr>]"
    using updateStatusAndSendRequest_sets_and_notifies_locked
            [of init Running None unreachable_plane] free
    unfolding q by (auto simp add: unreachable_plane_def)
  then show ?thesis
    using a by (simp add: init_def)
qed

section \<open>\<open>getStatus\<close>\<close>

text \<open>
  C10: \<open>getStatus\<close> never returns early: whatever \<open>json.Marshal\<close> gives, the last thing
  it does is \<open>sendResponse(w, 200, jsonPayload)\<close>. When \<open>json.Marshal\<close> gives the
  bytes, which it always does on a map of strings, these are the only calls and the
  response is a 200 with the payload. If it gave an error, the calls of the 500 response,
  with the message and its newline, would come first and be followed by the calls of the
  200 response with the \<open>nil\<close> payload; the status sent would then stay the 500 of the first
  \<open>WriteHeader\<close>. The state is left as it was, but for the line of the log.
\<close>

theorem getStatus_always_writes_200:
  assumes "\<not> statusMux g"
  shows "\<exists>g'. getStatus json_Marshal w g =
           Some ((case json_Marshal (status_payload g) of
                    Inl err \<Rightarrow>
                      w @ [Header_Set ''Content-Type'' ''application/json'', WriteHeader 500,
                           Encode (Body_string
                                     (''Error marshalling status into JSON: '' @ err @ [CHR 0x0A])),
                           Header_Set ''Content-Type'' ''application/json'', WriteHeader 200,
                           Encode Body_nil_bytes]
                  | Inr jsonPayload \<Rightarrow>
                      w @ [Header_Set ''Content-Type'' ''application/json'', WriteHeader 200,
                           Encode (Body_bytes jsonPayload)]),
                 g')
         \<and> response_status (fst (the (getStatus json_Marshal [] g))) =
             (case json_Marshal (status_payload g) of Inl err \<Rightarrow> Some 500
              | Inr jsonPayload \<Rightarrow> Some 200)
         \<and> status g' = status g \<and> connections g' = connections g"
  using assms
  by (simp add: getStatus_def sendResponse_def Printf_def Let_def split: sum.splits)

theorem getStatus_always_writes_200_witness:
  "\<not> statusMux init
   \<and> getStatus json_Marshal_plain [] init =
       Some ([Header_Set ''Content-Type'' ''application/json'', WriteHeader 200,
              Encode (Body_bytes (''{'' @ json_quote ''status'' @ '':'' @ json_quote ''Inactive'' @
                                  '','' @ json_quote ''streams'' @ '':'' @ json_quote ''0'' @ ''}''))],
             init)
   \<and> response_status (fst (the (getStatus json_Marshal_plain [] init))) = Some 200"
proof -
  have free: "\<not> statusMux init"
    by (simp add: init_def)
  have m: "json_Marshal_plain (status_payload init) =
             Inr (''{'' @ json_quote ''status'' @ '':'' @ json_quote ''Inactive'' @
                  '','' @ json_quote ''streams'' @ '':'' @ json_quote ''0'' @ ''}'')"
    by code_simp
  have same: "getStatus json_Marshal_plain [] init = Some (fst (the (getStatus json_Marshal_plain [] init)), init)"
    using free m by (simp add: getStatus_def Let_def)
  show ?thesis
    using getStatus_always_writes_200 [OF free, of json_Marshal_plain "[]"] free same
    unfolding m by auto
qed

section \<open>Admission and the status\<close>

text \<open>
  C1, as stated, fails: after \<open>requestShutdown\<close> has set the status to
  \<open>ShutdownRequested\<close>, a request to \<open>/stream\<close> is registered and answered with 200.
\<close>

theorem admitted_after_shutdown_requested:
  "map_option status (run shutdown_requested_run init) = Some ShutdownRequested
   \<and> map_option connections
        (run (shutdown_requested_run @
              [NewStream (stream ''c'' ''10.0.0.1:1935'') accepts, Respond 0]) init) =
       Some [(''c'', \<lparr>RemoteAddr = ''10.0.0.1:1935''\<rparr>)]
   \<and> map_option responses
        (run (shutdown_requested_run @
              [NewStream (stream ''c'' ''10.0.0.1:1935'') accepts, Respond 0]) init) =
       Some [[Header_Set ''Content-Type'' ''application/json'', WriteHeader 200, Encode Body_nil]]"
  unfolding shutdown_requested_run_def by code_simp

text \<open>
  C1, amended: \<open>handleNewStream\<close> does not read the status. In every state that a run
  reaches before \<open>startServer\<close> returns, whatever the status, a request that decodes and
  whose target accepts the connection is registered under its id, the status is left as it
  is, and the answer is 200.
\<close>

theorem handleNewStream_admits_in_every_status:
  assumes "run es init = Some s" and "coord s \<noteq> C_Exited" and "dial (URL sd) = Some c"
  shows "\<exists>s1 s2. step (NewStream (Some sd) dial) s = Some s1
           \<and> status s1 = status s
           \<and> map_of (connections s1) (UUID sd) = Some c
           \<and> step (Respond (length (handlers s))) s1 = Some s2
           \<and> connections s2 = connections s1
           \<and> responses s2 = responses s @
                [[Header_Set ''Content-Type'' ''application/json'', WriteHeader 200,
                  Encode Body_nil]]"
proof -
  have free: "\<not> connectionsMux s"
    using run_unlocked [OF assms(1)] by (simp add: unlocked_def)
  let ?h = "\<lparr>details = sd, conn = c, writer = [], at = Registered\<rparr>"
  let ?s1 = "s\<lparr>connectionsMux := False,
               connections := AList.update (UUID sd) c (connections s),
               handlers := handlers s @ [?h]\<rparr>"
  have one: "step (NewStream (Some sd) dial) s = Some ?s1"
    using free assms(2,3)
    by (simp add: step_def new_stream_def handleNewStream_register_def Let_def)
  let ?s2 = "?s1\<lparr>responses := responses s @ [sendResponse [] 200 Body_nil],
                  wg := wg s + 1,
                  handlers := (handlers s @ [?h])[length (handlers s) := ?h\<lparr>at := Handling\<rparr>]\<rparr>"
  have two: "step (Respond (length (handlers s))) ?s1 = Some ?s2"
    using assms(2) by (simp add: step_def handleNewStream_spawn_def Let_def)
  have "step (NewStream (Some sd) dial) s = Some ?s1
        \<and> status ?s1 = status s
        \<and> map_of (connections ?s1) (UUID sd) = Some c
        \<and> step (Respond (length (handlers s))) ?s1 = Some ?s2
        \<and> connections ?s2 = connections ?s1
        \<and> responses ?s2 = responses s @
             [[Header_Set ''Content-Type'' ''application/json'', WriteHeader 200,
               Encode Body_nil]]"
    using one two by (simp add: update_conv' sendResponse_def)
  then show ?thesis
    by blast
qed

theorem handleNewStream_admits_in_every_status_witness:
  "run shutdown_requested_run init \<noteq> None
   \<and> status (the (run shutdown_requested_run init)) = ShutdownRequested
   \<and> (\<exists>s1 s2. step (NewStream (stream ''c'' ''10.0.0.1:1935'') accepts)
                   (the (run shutdown_requested_run init)) = Some s1
         \<and> status s1 = ShutdownRequested
         \<and> map_of (connections s1) ''c'' = Some \<lparr>RemoteAddr = ''10.0.0.1:1935''\<rparr>
         \<and> step (Respond 0) s1 = Some s2
         \<and> responses s2 =
             [[Header_Set ''Content-Type'' ''application/json'', WriteHeader 200,
               Encode Body_nil]])"
proof -
  have ne: "run shutdown_requested_run init \<noteq> None"
    unfolding shutdown_requested_run_def by code_simp
  then obtain s where r: "run shutdown_requested_run init = Some s"
    by auto
  have facts: "status (the (run shutdown_requested_run init)) = ShutdownRequested"
    "coord (the (run shutdown_requested_run init)) \<noteq> C_Exited"
    "handlers (the (run shutdown_requested_run init)) = []"
    "responses (the (run shutdown_requested_run init)) = []"
    unfolding shutdown_requested_run_def by code_simp+
  have d: "accepts (URL \<lparr>UUID = ''c'', URL = ''10.0.0.1:1935''\<rparr>) = Some \<lparr>RemoteAddr = ''10.0.0.1:1935''\<rparr>"
    by (simp add: accepts_def)
  show ?thesis
    using handleNewStream_admits_in_every_status
            [where dial = accepts and sd = "\<lparr>UUID = ''c'', URL = ''10.0.0.1:1935''\<rparr>", OF r _ d]
          facts ne
    unfolding r stream_def by auto
qed


section \<open>A second request with the same id\<close>

lemma update_keeps_length:
  "k \<in> fst ` set al \<Longrightarrow> length (AList.update k v al) = length al"
  by (induction al) auto

text \<open>
  C7, as stated, fails: a second request with the id \<open>a\<close> is answered with 200 like the
  first, and the connection registered under \<open>a\<close> is the one of the second request.
\<close>

theorem duplicate_id_is_admitted:
  "map_option connections (run (take 1 duplicate_run) init) =
     Some [(''a'', \<lparr>RemoteAddr = ''10.0.0.1:1935''\<rparr>)]
   \<and> map_option connections (run duplicate_run init) =
       Some [(''a'', \<lparr>RemoteAddr = ''10.0.0.2:1935''\<rparr>)]
   \<and> map_option responses (run duplicate_run init) =
       Some [[Header_Set ''Content-Type'' ''application/json'', WriteHeader 200, Encode Body_nil],
             [Header_Set ''Content-Type'' ''application/json'', WriteHeader 200, Encode Body_nil]]"
  unfolding duplicate_run_def by code_simp

text \<open>
  C7, amended: there is no rejection of a duplicate. A request whose id is already in
  \<open>connections\<close> is admitted like any other; the connection stored under the id is
  replaced by the new one and the number of entries stays the same.
\<close>

theorem handleNewStream_replaces_duplicate:
  assumes "run es init = Some s" and "coord s \<noteq> C_Exited"
    and "map_of (connections s) (UUID sd) = Some c0" and "dial (URL sd) = Some c"
  shows "\<exists>s1. step (NewStream (Some sd) dial) s = Some s1
           \<and> map_of (connections s1) (UUID sd) = Some c
           \<and> length (connections s1) = length (connections s)
           \<and> responses s1 = responses s
           \<and> handlers s1 =
               handlers s @ [\<lparr>details = sd, conn = c, writer = [], at = Registered\<rparr>]"
proof -
  have free: "\<not> connectionsMux s"
    using run_unlocked [OF assms(1)] by (simp add: unlocked_def)
  have present: "UUID sd \<in> fst ` set (connections s)"
    using assms(3) by (metis domI dom_map_of_conv_image_fst)
  let ?s1 = "s\<lparr>connectionsMux := False,
               connections := AList.update (UUID sd) c (connections s),
               handlers := handlers s @
                 [\<lparr>details = sd, conn = c, writer = [], at = Registered\<rparr>]\<rparr>"
  have "step (NewStream (Some sd) dial) s = Some ?s1"
    using free assms(2,4)
    by (simp add: step_def new_stream_def handleNewStream_register_def Let_def)
  moreover have "map_of (connections ?s1) (UUID sd) = Some c"
    by (simp add: update_conv')
  moreover have "length (connections ?s1) = length (connections s)"
    using present by (simp add: update_keeps_length)
  ultimately show ?thesis
    by simp
qed

theorem handleNewStream_replaces_duplicate_witness:
  "run (take 1 duplicate_run) init \<noteq> None
   \<and> map_of (connections (the (run (take 1 duplicate_run) init))) ''a'' =
       Some \<lparr>RemoteAddr = ''10.0.0.1:1935''\<rparr>
   \<and> (\<exists>s1. step (NewStream (stream ''a'' ''10.0.0.2:1935'') accepts)
                (the (run (take 1 duplicate_run) init)) = Some s1
         \<and> map_of (connections s1) ''a'' = Some \<lparr>RemoteAddr = ''10.0.0.2:1935''\<rparr>
         \<and> length (connections s1) = 1
         \<and> responses s1 = [])"
proof -
  have ne: "run (take 1 duplicate_run) init \<noteq> None"
    unfolding duplicate_run_def by code_simp
  then obtain s where r: "run (take 1 duplicate_run) init = Some s"
    by auto
  have facts: "coord (the (run (take 1 duplicate_run) init)) \<noteq> C_Exited"
    "map_of (connections (the (run (take 1 duplicate_run) init))) ''a'' =
       Some \<lparr>RemoteAddr = ''10.0.0.1:1935''\<rparr>"
    "length (connections (the (run (take 1 duplicate_run) init))) = 1"
    "responses (the (run (take 1 duplicate_run) init)) = []"
    unfolding duplicate_run_def by code_simp+
  have d: "accepts (URL \<lparr>UUID = ''a'', URL = ''10.0.0.2:1935''\<rparr>) =
             Some \<lparr>RemoteAddr = ''10.0.0.2:1935''\<rparr>"
    by (simp add: accepts_def)
  show ?thesis
    using handleNewStream_replaces_duplicate
            [where dial = accepts and sd = "\<lparr>UUID = ''a'', URL = ''10.0.0.2:1935''\<rparr>"
               and ?c0.0 = "\<lparr>RemoteAddr = ''10.0.0.1:1935''\<rparr>", OF r _ _ d]
          facts ne
    unfolding r stream_def by auto
qed

section \<open>The end of a session\<close>

text \<open>
  C2 at the request \<open>{"id": "a", "url": "10.0.0.1:1935"}\<close>: the session is admitted,
  handled and completed, \<open>connectionComplete\<close> is sent and \<open>wg.Done\<close> is called, and
  \<open>connections\<close> still holds the entry of \<open>a\<close>, because the \<open>delete\<close> of line 338
  takes the remote address of the connection as its key and the entry was stored under
  the id (line 326).
\<close>

theorem completed_session_stays_registered:
  "map_option connections (run completed_run init) =
     Some [(''a'', \<lparr>RemoteAddr = ''10.0.0.1:1935''\<rparr>)]
   \<and> map_option wg (run completed_run init) = Some 0
   \<and> map_option (map at \<circ> handlers) (run completed_run init) = Some [Finished]
   \<and> map_option (map endpoint \<circ> requests) (run completed_run init) =
       Some [UpdateStatus, Complete]"
  unfolding completed_run_def by code_simp

section \<open>A failed \<open>server.Shutdown\<close>\<close>

text \<open>
  C6, as stated, fails: when \<open>server.Shutdown\<close> returns an error, the status stays
  \<open>ShuttingDown\<close>; the control plane gets the \<open>/notify\<close> call and \<open>startServer\<close>
  returns.
\<close>

theorem failed_shutdown_keeps_status:
  "map_option status (run failed_shutdown_run init) = Some ShuttingDown
   \<and> map_option coord (run failed_shutdown_run init) = Some C_Exited
   \<and> map_option (last \<circ> requests) (run failed_shutdown_run init) =
       Some \<lparr>endpoint = Notify, query = [],
              body = [(''reason'', ''Server Shutdown Failed''),
                      (''message'', ''context deadline exceeded'')],
              with_statusMux = False, with_connectionsMux = False\<rparr>"
  unfolding failed_shutdown_run_def by code_simp

text \<open>
  C6, amended: no run ever sets the status to \<open>ShutdownFailed\<close>. When
  \<open>server.Shutdown\<close> fails, the status stays \<open>ShuttingDown\<close>, the control plane is
  notified through \<open>/notify\<close> with the reason \<open>Server Shutdown Failed\<close> and the text of
  the error, and \<open>startServer\<close> returns.
\<close>

theorem startServer_failed_shutdown_notifies_only:
  assumes "run es init = Some s"
  shows "status s \<noteq> ShutdownFailed
         \<and> (coord s = C_Confirmed \<longrightarrow>
              (\<exists>s'. step (ServerShutdown (Some err)) s = Some s'
                 \<and> status s' = ShuttingDown
                 \<and> coord s' = C_Exited
                 \<and> requests s' = requests s @
                      [\<lparr>endpoint = Notify, query = [],
                        body = [(''reason'', ''Server Shutdown Failed''), (''message'', err)],
                        with_statusMux = False, with_connectionsMux = False\<rparr>]))"
proof -
  have st: "status_follows_coord s"
    using run_status_follows_coord [OF assms] .
  have free: "\<not> statusMux s" "\<not> connectionsMux s"
    using run_unlocked [OF assms] by (simp_all add: unlocked_def)
  have "status s \<noteq> ShutdownFailed"
    using st by (cases "coord s") (simp_all add: status_follows_coord_def)
  moreover have "coord s = C_Confirmed \<longrightarrow> status s = ShuttingDown"
    using st by (simp add: status_follows_coord_def)
  ultimately show ?thesis
    using free
    by (simp add: step_def startServer_shutdown_def notifyKubernetes_def Printf_def)
qed

theorem startServer_failed_shutdown_notifies_only_witness:
  "run (butlast failed_shutdown_run) init \<noteq> None
   \<and> coord (the (run (butlast failed_shutdown_run) init)) = C_Confirmed
   \<and> (\<exists>s'. step (ServerShutdown (Some ''context deadline exceeded''))
                (the (run (butlast failed_shutdown_run) init)) = Some s'
         \<and> status s' = ShuttingDown \<and> coord s' = C_Exited)"
proof -
  have ne: "run (butlast failed_shutdown_run) init \<noteq> None"
    unfolding failed_shutdown_run_def by code_simp
  then obtain s where r: "run (butlast failed_shutdown_run) init = Some s"
    by auto
  have c: "coord (the (run (butlast failed_shutdown_run) init)) = C_Confirmed"
    unfolding failed_shutdown_run_def by code_simp
  show ?thesis
    using startServer_failed_shutdown_notifies_only [OF r, of "''context deadline exceeded''"] c ne
    unfolding r by auto
qed

section \<open>The channel of shutdown reasons\<close>

lemma step_delivered:
  assumes "channels_empty g" and "step e g = Some g'"
  shows "delivered g' = delivered g + (if is_delivery e then 1 else 0)"
proof (cases e)
  case (Startup env)
  then show ?thesis
    using assms startServer_startup_effect [of env g g']
    by (simp add: step_def delivered_def split: if_splits)
next
  case (Elapse n)
  then show ?thesis
    using assms
    by (auto simp add: step_def delivered_def elapse_lifetime_keeps split: if_splits)
next
  case (NewStream decoded dial)
  then show ?thesis
    using assms new_stream_effect [of decoded dial g g']
    by (simp add: step_def delivered_def split: if_splits)
next
  case (Respond i)
  then show ?thesis
    using assms
    by (auto simp add: step_def delivered_def handleNewStream_spawn_def Let_def split: if_splits)
next
  case (StreamDone i env)
  then show ?thesis
    using assms goroutine_complete_effect [of i env g g']
    by (simp add: step_def delivered_def split: if_splits)
next
  case (WgDone i)
  then show ?thesis
    using assms
    by (auto simp add: step_def delivered_def goroutine_done_def split: if_splits)
next
  case UsageReset
  then show ?thesis
    using assms
    by (auto simp add: step_def delivered_def usage_reset_def split: if_splits)
next
  case UsageTimeout
  then show ?thesis
    using assms
    by (auto simp add: step_def delivered_def usage_timeout_def split: if_splits)
next
  case (Send r)
  then show ?thesis
    using assms timer_send_effect [of r g g']
    by (auto simp add: step_def delivered_def channels_empty_def split: if_splits)
next
  case Receive
  then show ?thesis
    using assms
    by (auto simp add: step_def delivered_def channels_empty_def startServer_receive_def
        split: if_splits list.splits)
next
  case (RequestShutdown env)
  then show ?thesis
    using assms startServer_request_effect [of env g g']
    by (auto simp add: step_def delivered_def split: if_splits)
next
  case Drain
  then show ?thesis
    using assms
    by (auto simp add: step_def delivered_def startServer_wait_def split: if_splits)
next
  case (ConfirmShutdown env)
  then show ?thesis
    using assms startServer_confirm_effect [of env g g']
    by (simp add: step_def delivered_def split: if_splits)
next
  case (ServerShutdown shutdown_err)
  then show ?thesis
    using assms
    by (auto simp add: step_def delivered_def startServer_shutdown_def notifyKubernetes_def
        Printf_def split: if_splits option.splits)
qed

lemma run_delivered:
  assumes "channels_empty g" and "run es g = Some g'"
  shows "delivered g' = delivered g + length (filter is_delivery es)"
  using assms
proof (induction es arbitrary: g)
  case Nil
  then show ?case by simp
next
  case (Cons e es)
  then obtain g1 where s: "step e g = Some g1" and r: "run es g1 = Some g'"
    by (auto split: option.splits)
  have "channels_empty g1"
    using step_channels_empty [OF Cons.prems(1) s] .
  from Cons.IH [OF this r] step_delivered [OF Cons.prems(1) s]
  show ?case by simp
qed

text \<open>
  C4, as stated, fails: the channel made at line 239 has capacity \<open>0\<close>, not one. In the
  run below the usage timer delivers its reason, a stream keeps the instance alive until
  the lifetime timer wakes up, and the send of the lifetime timer cannot proceed.
\<close>

theorem losing_timer_blocks_on_unbuffered_channel:
  "chan_cap (shutdownServer init) = 0
   \<and> map_option lifetimeTimer (run lifetime_blocked_run init) = Some L_Sending
   \<and> map_option coord (run lifetime_blocked_run init) = Some C_Requested
   \<and> run (lifetime_blocked_run @ [Send Lifetime]) init = None"
  unfolding lifetime_blocked_run_def by code_simp

text \<open>
  C4, amended: \<open>startServer\<close> receives exactly one reason, the first one delivered (a
  run holds no delivery while \<open>startServer\<close> has not passed line 271, and exactly one
  afterwards). The channel is unbuffered, capacity \<open>0\<close>, and never holds a value; once
  \<open>startServer\<close> is no longer at its receive, no send on the channel can proceed, so the
  losing timer stays blocked at its send until the process exits.
\<close>

theorem startServer_receives_one_reason_unbuffered:
  assumes "run es init = Some s"
  shows "chan_cap (shutdownServer s) = 0
         \<and> chan_buf (shutdownServer s) = []
         \<and> length (filter is_delivery es) =
             (if coord s = C_Start \<or> coord s = C_Await then 0 else 1)
         \<and> (coord s \<noteq> C_Await \<longrightarrow> step (Send r) s = None \<and> step Receive s = None)"
proof -
  have ch: "channels_empty s"
    using run_channels_empty [OF assms] .
  have "channels_empty init"
    by (simp add: channels_empty_def init_def make_chan_def)
  from run_delivered [OF this assms]
  have "length (filter is_delivery es) = delivered s"
    by (simp add: delivered_def init_def)
  moreover have "coord s \<noteq> C_Await \<longrightarrow> step (Send r) s = None \<and> step Receive s = None"
    using ch by (simp add: step_def timer_send_def startServer_receive_def channels_empty_def)
  ultimately show ?thesis
    using ch by (simp add: delivered_def channels_empty_def)
qed

theorem startServer_receives_one_reason_unbuffered_witness:
  "run lifetime_blocked_run init \<noteq> None
   \<and> length (filter is_delivery lifetime_blocked_run) = 1
   \<and> lifetimeTimer (the (run lifetime_blocked_run init)) = L_Sending
   \<and> step (Send Lifetime) (the (run lifetime_blocked_run init)) = None"
proof -
  have ne: "run lifetime_blocked_run init \<noteq> None"
    unfolding lifetime_blocked_run_def by code_simp
  then obtain s where r: "run lifetime_blocked_run init = Some s"
    by auto
  have c: "coord (the (run lifetime_blocked_run init)) = C_Requested"
    "lifetimeTimer (the (run lifetime_blocked_run init)) = L_Sending"
    unfolding lifetime_blocked_run_def by code_simp+
  show ?thesis
    using startServer_receives_one_reason_unbuffered [OF r, of Lifetime] c ne
    unfolding r by auto
qed

section \<open>The usage timer and admissions\<close>

lemma step_usage_clock:
  assumes "usage_clock t g" and "step e g = Some g'"
  shows "usage_clock (t + minutes e) g'"
proof (cases e)
  case (Startup env)
  then show ?thesis
    using assms startServer_startup_effect [of env g g']
    by (auto simp add: step_def usage_clock_def split: if_splits)
next
  case (Elapse n)
  then show ?thesis
    using assms
    by (auto simp add: step_def usage_clock_def elapse_lifetime_keeps elapse_usage_def split: if_splits)
next
  case (NewStream decoded dial)
  then show ?thesis
    using assms new_stream_effect [of decoded dial g g']
    by (auto simp add: step_def usage_clock_def split: if_splits)
next
  case (Respond i)
  then show ?thesis
    using assms
    by (auto simp add: step_def usage_clock_def handleNewStream_spawn_def Let_def split: if_splits)
next
  case (StreamDone i env)
  then show ?thesis
    using assms goroutine_complete_effect [of i env g g']
    by (auto simp add: step_def usage_clock_def split: if_splits)
next
  case (WgDone i)
  then show ?thesis
    using assms
    by (auto simp add: step_def usage_clock_def goroutine_done_def split: if_splits)
next
  case UsageReset
  then show ?thesis
    using assms
    by (auto simp add: step_def usage_clock_def usage_reset_def split: if_splits)
next
  case UsageTimeout
  then show ?thesis
    using assms
    by (auto simp add: step_def usage_clock_def usage_timeout_def split: if_splits)
next
  case (Send r)
  then show ?thesis
    using assms
    by (cases r) (auto simp add: step_def usage_clock_def timer_send_def at_send_def after_send_def Printf_def
        split: if_splits)
next
  case Receive
  then show ?thesis
    using assms
    by (auto simp add: step_def usage_clock_def startServer_receive_def split: if_splits list.splits)
next
  case (RequestShutdown env)
  then show ?thesis
    using assms startServer_request_effect [of env g g']
    by (auto simp add: step_def usage_clock_def split: if_splits)
next
  case Drain
  then show ?thesis
    using assms
    by (auto simp add: step_def usage_clock_def startServer_wait_def split: if_splits)
next
  case (ConfirmShutdown env)
  then show ?thesis
    using assms startServer_confirm_effect [of env g g']
    by (auto simp add: step_def usage_clock_def split: if_splits)
next
  case (ServerShutdown shutdown_err)
  then show ?thesis
    using assms
    by (auto simp add: step_def usage_clock_def startServer_shutdown_def notifyKubernetes_def
        Printf_def split: if_splits option.splits)
qed

lemma run_usage_clock:
  assumes "usage_clock t g" and "run es g = Some g'"
  shows "usage_clock (t + elapsed es) g'"
  using assms
proof (induction es arbitrary: g t)
  case Nil
  then show ?case by (simp add: elapsed_def)
next
  case (Cons e es)
  then obtain g1 where s: "step e g = Some g1" and r: "run es g1 = Some g'"
    by (auto split: option.splits)
  from Cons.IH [OF step_usage_clock [OF Cons.prems(1) s] r]
  show ?case by (simp add: elapsed_def add.assoc)
qed

text \<open>
  C5 on the code: admissions do not reach the usage timer. In every run the timer has
  fired exactly when \<open>usageTimeoutMinutes\<close> have passed since the start, whatever
  requests were admitted in between, and the \<open>connectionChan\<close> case of the \<open>select\<close>
  can never be taken: \<open>connectionChan\<close> is made at line 240 and handed to
  \<open>startUsageTimer\<close> only, so nothing sends on it. With a session admitted at minute
  10, the timer fires at minute 15 and not at minute 25.
\<close>

theorem usage_timer_fires_from_start:
  assumes "run es init = Some s"
  shows "((timer_C (usageTimer s) \<or> usage_at (usageTimer s) \<noteq> U_Select) =
            (usageTimeoutMinutes \<le> elapsed es))
         \<and> step UsageReset s = None"
proof -
  have "usage_clock 0 init"
    by (simp add: usage_clock_def init_def make_chan_def usageTimeoutMinutes_def)
  from run_usage_clock [OF this assms]
  have c: "usage_clock (elapsed es) s"
    by simp
  then have "step UsageReset s = None"
    by (simp add: usage_clock_def step_def usage_reset_def)
  moreover have "(timer_C (usageTimer s) \<or> usage_at (usageTimer s) \<noteq> U_Select) =
                   (usageTimeoutMinutes \<le> elapsed es)"
    using c by (auto simp add: usage_clock_def split: if_splits)
  ultimately show ?thesis
    by simp
qed

theorem usage_timer_fires_from_start_witness:
  "run admission_at_ten_run init \<noteq> None
   \<and> elapsed admission_at_ten_run = 15
   \<and> map at (handlers (the (run admission_at_ten_run init))) = [Handling]
   \<and> timer_C (usageTimer (the (run admission_at_ten_run init)))
   \<and> step UsageReset (the (run admission_at_ten_run init)) = None"
proof -
  have ne: "run admission_at_ten_run init \<noteq> None"
    unfolding admission_at_ten_run_def by code_simp
  then obtain s where r: "run admission_at_ten_run init = Some s"
    by auto
  have facts: "elapsed admission_at_ten_run = 15"
    "map at (handlers (the (run admission_at_ten_run init))) = [Handling]"
    "usage_at (usageTimer (the (run admission_at_ten_run init))) = U_Select"
    unfolding admission_at_ten_run_def by code_simp+
  show ?thesis
    using usage_timer_fires_from_start [OF r] facts ne
    unfolding r by (simp add: usageTimeoutMinutes_def)
qed

section \<open>The drain wait\<close>

text \<open>
  C3 at a request that arrives as the usage timer fires: the request \<open>a\<close> is registered
  (line 326), \<open>startServer\<close> logs that it waits on one stream (line 278), and
  \<open>wg.Wait()\<close> (line 283) returns at once, because the handler of \<open>a\<close> has not come to
  its \<open>wg.Add(1)\<close> (line 333), which stands after the \<open>Unlock\<close> of line 327 and the
  response. \<open>startServer\<close> goes on to its end with \<open>a\<close> still in \<open>connections\<close> and its
  goroutine never started.
\<close>

theorem drain_returns_with_registered_session:
  "map_option connections (run early_drain_run init) =
     Some [(''a'', \<lparr>RemoteAddr = ''10.0.0.1:1935''\<rparr>)]
   \<and> map_option (last \<circ> logger) (run early_drain_run init) =
       Some ''Waiting on 1 streams to complete.''
   \<and> map_option wg (run early_drain_run init) = Some 0
   \<and> map_option coord (run (early_drain_run @ [Drain]) init) = Some C_Drained
   \<and> map_option coord
        (run (early_drain_run @ [Drain, ConfirmShutdown answers_ok, ServerShutdown None]) init) =
       Some C_Exited
   \<and> map_option connections
        (run (early_drain_run @ [Drain, ConfirmShutdown answers_ok, ServerShutdown None]) init) =
       Some [(''a'', \<lparr>RemoteAddr = ''10.0.0.1:1935''\<rparr>)]
   \<and> map_option (map at \<circ> handlers)
        (run (early_drain_run @ [Drain, ConfirmShutdown answers_ok, ServerShutdown None]) init) =
       Some [Registered]"
  unfolding early_drain_run_def by code_simp

end
